theory Spec2Isabelle
  imports Complex_Main "HOL-Library.AList"
begin

section \<open>Conventions of the embedding\<close>

text \<open>
  The repository is a Node.js game server (two versions of \<open>server.js\<close>, both in
  \<open>src/unnamed/part_000\<close>: the older one queues single key strokes, the newer one keeps a
  pressed-state per direction) and a browser client (\<open>src/public/client.js\<close>).

  \<^item> JavaScript numbers are modelled as \<^typ>\<open>real\<close>; scores, which only ever count up
    from zero in steps of one, as \<^typ>\<open>nat\<close>.
  \<^item> An object used as a dictionary (\<open>PLAYERS\<close>, \<open>playersForSend\<close>, \<open>next.players\<close>) is an
    association list in insertion order, the order in which \<open>for (const id in ...)\<close>
    visits string keys; \<open>AList.update\<close> keeps the position of an existing key and appends
    a new one, as assignment to a property does.
  \<^item> What the environment supplies is an argument: the value of \<open>Date.now()\<close>, the
    identifier and colour drawn at a connection, the result of \<open>JSON.parse\<close>
    (\<open>None\<close> when it throws), and the stream \<open>rnd\<close> of draws that successive calls of
    \<open>spawnCoin\<close> consume (\<open>uuidv4()\<close> and two values of \<open>Math.random()\<close> each).
  \<^item> The field \<open>id\<close> of players and coins is written \<open>player_id\<close> and \<open>coin_id\<close>.
\<close>

section \<open>Configuration and game state (server)\<close>

definition TICK_RATE :: real where "TICK_RATE = 20"
definition TICK_DT :: real where "TICK_DT = 1000 / TICK_RATE"
definition LATENCY_MS :: real where "LATENCY_MS = 200"

record map_size =
  width :: real
  height :: real

definition MAP_SIZE :: map_size where "MAP_SIZE = \<lparr>width = 800, height = 600\<rparr>"
definition PLAYER_SIZE :: real where "PLAYER_SIZE = 20"
definition COIN_SIZE :: real where "COIN_SIZE = 10"
definition MOVEMENT_SPEED :: real where "MOVEMENT_SPEED = 5"

record pos =
  x :: real
  y :: real

record coin = pos +
  coin_id :: string

text \<open>What the client reads of a player object: position, score and colour.\<close>

record drawn = pos +
  score :: nat
  color :: string

text \<open>The object built for \<open>playersForSend[id]\<close>: \<open>{id, x, y, score, color}\<close>.\<close>

record player_view = drawn +
  player_id :: string

record pressed_state =
  up :: bool
  down :: bool
  left :: bool
  right :: bool

text \<open>The player object of the newer server, with its server-only pressed-state.\<close>

record player = player_view +
  pressed :: pressed_state

text \<open>The player object of the older server, with its server-only input queue.\<close>

record player_v1 = player_view +
  inputs :: "string list"

record 'p world_view =
  players :: "(string \<times> 'p) list"
  coins :: "coin list"

record 'p snapshot = "'p world_view" +
  timestamp :: real

type_synonym draw = "string \<times> real \<times> real"

text \<open>
  \<open>spawnCoin\<close>: pushes a coin with a fresh identifier at
  \<open>Math.random() * (MAP_SIZE.width - 20) + 10\<close>, \<open>Math.random() * (MAP_SIZE.height - 20) + 10\<close>.
\<close>

definition new_coin :: "draw \<Rightarrow> coin" where
  "new_coin d = (case d of (uid, r1, r2) \<Rightarrow>
     \<lparr>x = r1 * (width MAP_SIZE - 20) + 10, y = r2 * (height MAP_SIZE - 20) + 10, coin_id = uid\<rparr>)"

definition spawnCoin :: "draw \<Rightarrow> coin list \<Rightarrow> coin list" where
  "spawnCoin d COINS = COINS @ [new_coin d]"

text \<open>\<open>for (let i = 0; i < 5; i++) spawnCoin();\<close> with \<open>n\<close> for the bound and \<open>k\<close> the next draw.\<close>

fun spawn_initial :: "(nat \<Rightarrow> draw) \<Rightarrow> nat \<Rightarrow> nat \<Rightarrow> coin list \<Rightarrow> coin list" where
  "spawn_initial rnd 0 k COINS = COINS"
| "spawn_initial rnd (Suc n) k COINS = spawn_initial rnd n (Suc k) (spawnCoin (rnd k) COINS)"

section \<open>Messages\<close>

datatype json =
  JNull | JBool bool | JNum real | JStr string | JArr "json list" | JObj "(string \<times> json) list"

text \<open>
  A value as \<open>JSON.parse\<close> returns it; the properties of an object have distinct names.
  Reading a property: \<open>None\<close> is \<open>undefined\<close>. Of the values \<open>JSON.parse\<close> returns only
  objects carry the properties \<open>type\<close>, \<open>key\<close> and \<open>action\<close>; reading a property of
  \<open>null\<close> throws, which the handlers treat before they call \<open>get_prop\<close>.
\<close>

fun get_prop :: "json \<Rightarrow> string \<Rightarrow> json option" where
  "get_prop (JObj fs) k = map_of fs k"
| "get_prop _ k = None"

definition is_direction :: "json option \<Rightarrow> bool" where
  "is_direction v = (v = Some (JStr ''up'') \<or> v = Some (JStr ''down'')
     \<or> v = Some (JStr ''left'') \<or> v = Some (JStr ''right''))"

text \<open>A property of the parsed message, \<open>None\<close> when there is no message to read it from.\<close>

definition parsed_prop :: "json option \<Rightarrow> string \<Rightarrow> json option" where
  "parsed_prop parsed k = (case parsed of None \<Rightarrow> None | Some data \<Rightarrow> get_prop data k)"

text \<open>
  What the client sends on \<open>keydown\<close> and \<open>keyup\<close>:
  \<open>{ type: 'input', key: cmd, action: 'start' }\<close> and the same with \<open>'stop'\<close>.
\<close>

definition input_msg :: "string \<Rightarrow> string \<Rightarrow> json" where
  "input_msg cmd action = JObj [(''type'', JStr ''input''), (''key'', JStr cmd), (''action'', JStr action)]"

section \<open>Connection handling (newer server)\<close>

definition connection :: "string \<Rightarrow> string \<Rightarrow> (string \<times> player) list \<Rightarrow> (string \<times> player) list" where
  "connection playerId col PLAYERS = AList.update playerId
     \<lparr>x = width MAP_SIZE / 2, y = height MAP_SIZE / 2, score = 0, color = col,
      player_id = playerId,
      pressed = \<lparr>up = False, down = False, left = False, right = False\<rparr>\<rparr> PLAYERS"

text \<open>\<open>pressed[data.key] = v\<close> for a key already checked to be one of the four directions.\<close>

definition set_pressed :: "string \<Rightarrow> bool \<Rightarrow> pressed_state \<Rightarrow> pressed_state" where
  "set_pressed k v pr =
     (if k = ''up'' then pr\<lparr>up := v\<rparr>
      else if k = ''down'' then pr\<lparr>down := v\<rparr>
      else if k = ''left'' then pr\<lparr>left := v\<rparr>
      else if k = ''right'' then pr\<lparr>right := v\<rparr>
      else pr)"

text \<open>\<open>pressed[k]\<close>, as the game loop reads \<open>p.pressed.up\<close> and the others.\<close>

definition get_pressed :: "string \<Rightarrow> pressed_state \<Rightarrow> bool" where
  "get_pressed k pr =
     (if k = ''up'' then up pr
      else if k = ''down'' then down pr
      else if k = ''left'' then left pr
      else if k = ''right'' then right pr
      else False)"

text \<open>The backward-compatibility branch: one step along \<open>key\<close>, then the clamp.\<close>

definition single_shot :: "json option \<Rightarrow> player \<Rightarrow> player" where
  "single_shot k p =
     (let p = (if k = Some (JStr ''up'') then p\<lparr>y := y p - MOVEMENT_SPEED\<rparr> else p);
          p = (if k = Some (JStr ''down'') then p\<lparr>y := y p + MOVEMENT_SPEED\<rparr> else p);
          p = (if k = Some (JStr ''left'') then p\<lparr>x := x p - MOVEMENT_SPEED\<rparr> else p);
          p = (if k = Some (JStr ''right'') then p\<lparr>x := x p + MOVEMENT_SPEED\<rparr> else p);
          p = p\<lparr>x := max 0 (min (width MAP_SIZE) (x p))\<rparr>;
          p = p\<lparr>y := max 0 (min (height MAP_SIZE) (y p))\<rparr>
      in p)"

text \<open>
  The body of the delayed callback of \<open>ws.on('message')\<close>. \<open>parsed\<close> is the result of
  \<open>JSON.parse(message)\<close>, \<open>None\<close> when it throws; the \<open>catch\<close> logs and goes on, and so does
  the \<open>TypeError\<close> of reading \<open>type\<close> of \<open>null\<close>. Nothing in the callback closes the socket
  or removes a player.
\<close>

definition on_message :: "string \<Rightarrow> json option \<Rightarrow> (string \<times> player) list \<Rightarrow> (string \<times> player) list" where
  "on_message playerId parsed PLAYERS =
     (case parsed of
        None \<Rightarrow> PLAYERS
      | Some JNull \<Rightarrow> PLAYERS
      | Some data \<Rightarrow>
          if get_prop data ''type'' = Some (JStr ''input'') \<and> map_of PLAYERS playerId \<noteq> None then
            if is_direction (get_prop data ''key'') \<and>
               (get_prop data ''action'' = Some (JStr ''start'') \<or> get_prop data ''action'' = Some (JStr ''stop''))
            then (case get_prop data ''key'' of
                    Some (JStr k) \<Rightarrow> AList.map_entry playerId
                      (\<lambda>p. p\<lparr>pressed := set_pressed k (get_prop data ''action'' = Some (JStr ''start'')) (pressed p)\<rparr>)
                      PLAYERS
                  | _ \<Rightarrow> PLAYERS)
            else if is_direction (get_prop data ''key'')
              then AList.map_entry playerId (single_shot (get_prop data ''key'')) PLAYERS
              else PLAYERS
          else PLAYERS)"

definition on_close :: "string \<Rightarrow> (string \<times> player) list \<Rightarrow> (string \<times> player) list" where
  "on_close playerId PLAYERS = AList.delete playerId PLAYERS"

section \<open>The game loop (newer server)\<close>

text \<open>Movement from the pressed booleans, then the boundary checks.\<close>

definition move :: "player \<Rightarrow> player" where
  "move p =
     (let p = (if up (pressed p) then p\<lparr>y := y p - MOVEMENT_SPEED\<rparr> else p);
          p = (if down (pressed p) then p\<lparr>y := y p + MOVEMENT_SPEED\<rparr> else p);
          p = (if left (pressed p) then p\<lparr>x := x p - MOVEMENT_SPEED\<rparr> else p);
          p = (if right (pressed p) then p\<lparr>x := x p + MOVEMENT_SPEED\<rparr> else p);
          p = p\<lparr>x := max 0 (min (width MAP_SIZE) (x p))\<rparr>;
          p = p\<lparr>y := max 0 (min (height MAP_SIZE) (y p))\<rparr>
      in p)"

text \<open>The distance of the collision loop, and its test \<open>dist < PLAYER_SIZE + COIN_SIZE\<close>.\<close>

definition center_distance :: "'a pos_scheme \<Rightarrow> coin \<Rightarrow> real" where
  "center_distance p c = (let dx = x p - x c; dy = y p - y c in sqrt (dx * dx + dy * dy))"

definition collides :: "'a pos_scheme \<Rightarrow> coin \<Rightarrow> bool" where
  "collides p c = (let dist = center_distance p c in dist < PLAYER_SIZE + COIN_SIZE)"

text \<open>\<open>COINS.splice(i, 1)\<close>.\<close>

definition splice1 :: "nat \<Rightarrow> 'a list \<Rightarrow> 'a list" where
  "splice1 i xs = take i xs @ drop (Suc i) xs"

text \<open>
  \<open>for (let i = COINS.length - 1; i >= 0; i--)\<close> for one player: the first argument is
  \<open>i + 1\<close>, and \<open>k\<close> counts the draws \<open>spawnCoin\<close> has consumed. Reading \<open>COINS[i]\<close> beyond the
  array gives \<open>undefined\<close>, and \<open>c.x\<close> then throws: that is \<open>None\<close>.
\<close>

fun collision_loop ::
  "(nat \<Rightarrow> draw) \<Rightarrow> nat \<Rightarrow> 'a player_view_scheme \<Rightarrow> coin list \<Rightarrow> nat
     \<Rightarrow> ('a player_view_scheme \<times> coin list \<times> nat) option" where
  "collision_loop rnd 0 p COINS k = Some (p, COINS, k)"
| "collision_loop rnd (Suc i) p COINS k =
     (if i < length COINS then
        (if collides p (COINS ! i)
         then collision_loop rnd i (p\<lparr>score := score p + 1\<rparr>)
                (spawnCoin (rnd k) (splice1 i COINS)) (Suc k)
         else collision_loop rnd i p COINS k)
      else None)"

text \<open>\<open>for (const id in PLAYERS)\<close>: each player moves, then runs the collision loop.\<close>

fun tick_players ::
  "(nat \<Rightarrow> draw) \<Rightarrow> (string \<times> player) list \<Rightarrow> coin list \<Rightarrow> nat
     \<Rightarrow> ((string \<times> player) list \<times> coin list \<times> nat) option" where
  "tick_players rnd [] COINS k = Some ([], COINS, k)"
| "tick_players rnd ((pid, p) # rest) COINS k =
     (case collision_loop rnd (length COINS) (move p) COINS k of
        None \<Rightarrow> None
      | Some (p', COINS', k') \<Rightarrow>
          (case tick_players rnd rest COINS' k' of
             None \<Rightarrow> None
           | Some (rest', COINS'', k'') \<Rightarrow> Some ((pid, p') # rest', COINS'', k'')))"

text \<open>The object literal of \<open>playersForSend[id]\<close>.\<close>

definition for_send :: "player \<Rightarrow> player_view" where
  "for_send p = \<lparr>x = x p, y = y p, score = score p, color = color p, player_id = player_id p\<rparr>"

section \<open>Serialisation of the state packet\<close>

text \<open>
  \<open>JSON.stringify\<close> writes every own property of an object. The newer server hands it
  the objects of \<open>playersForSend\<close>, the older one the player objects themselves.
\<close>

definition coin_json :: "coin \<Rightarrow> json" where
  "coin_json c = JObj [(''id'', JStr (coin_id c)), (''x'', JNum (x c)), (''y'', JNum (y c))]"

definition player_view_json :: "player_view \<Rightarrow> json" where
  "player_view_json p = JObj [(''id'', JStr (player_id p)), (''x'', JNum (x p)), (''y'', JNum (y p)),
     (''score'', JNum (real (score p))), (''color'', JStr (color p))]"

definition player_v1_json :: "player_v1 \<Rightarrow> json" where
  "player_v1_json p = JObj [(''id'', JStr (player_id p)), (''x'', JNum (x p)), (''y'', JNum (y p)),
     (''score'', JNum (real (score p))), (''color'', JStr (color p)),
     (''inputs'', JArr (map JStr (inputs p)))]"

definition state_packet :: "('p \<Rightarrow> json) \<Rightarrow> 'p snapshot \<Rightarrow> json" where
  "state_packet pj gameState = JObj [(''type'', JStr ''state''), (''state'', JObj
     [(''players'', JObj (map (\<lambda>(pid, p). (pid, pj p)) (players gameState))),
      (''coins'', JArr (map coin_json (coins gameState))),
      (''timestamp'', JNum (timestamp gameState))])]"

text \<open>The property names of a serialised object, and of each player of a state packet.\<close>

fun fields :: "json \<Rightarrow> string list" where
  "fields (JObj fs) = map fst fs"
| "fields _ = []"

definition player_fields :: "json \<Rightarrow> string list list" where
  "player_fields packet =
     (case get_prop packet ''state'' of
        Some st \<Rightarrow> (case get_prop st ''players'' of
                      Some (JObj ps) \<Rightarrow> map (\<lambda>(pid, p). fields p) ps
                    | _ \<Rightarrow> [])
      | None \<Rightarrow> [])"

section \<open>The older server\<close>

definition connection_v1 ::
  "string \<Rightarrow> string \<Rightarrow> (string \<times> player_v1) list \<Rightarrow> (string \<times> player_v1) list" where
  "connection_v1 playerId col PLAYERS = AList.update playerId
     \<lparr>x = width MAP_SIZE / 2, y = height MAP_SIZE / 2, score = 0, color = col,
      player_id = playerId, inputs = []\<rparr> PLAYERS"

definition on_message_v1 ::
  "string \<Rightarrow> json option \<Rightarrow> (string \<times> player_v1) list \<Rightarrow> (string \<times> player_v1) list" where
  "on_message_v1 playerId parsed PLAYERS =
     (case parsed of
        None \<Rightarrow> PLAYERS
      | Some JNull \<Rightarrow> PLAYERS
      | Some data \<Rightarrow>
          if get_prop data ''type'' = Some (JStr ''input'') \<and> map_of PLAYERS playerId \<noteq> None then
            (case get_prop data ''key'' of
               Some (JStr k) \<Rightarrow>
                 if is_direction (Some (JStr k))
                 then AList.map_entry playerId (\<lambda>p. p\<lparr>inputs := inputs p @ [k]\<rparr>) PLAYERS
                 else PLAYERS
             | _ \<Rightarrow> PLAYERS)
          else PLAYERS)"

text \<open>The body of \<open>while (p.inputs.length > 0)\<close> for the input \<open>p.inputs.shift()\<close> returned.\<close>

definition apply_input :: "string \<Rightarrow> player_v1 \<Rightarrow> player_v1" where
  "apply_input input p =
     (let p = (if input = ''up'' then p\<lparr>y := y p - MOVEMENT_SPEED\<rparr> else p);
          p = (if input = ''down'' then p\<lparr>y := y p + MOVEMENT_SPEED\<rparr> else p);
          p = (if input = ''left'' then p\<lparr>x := x p - MOVEMENT_SPEED\<rparr> else p);
          p = (if input = ''right'' then p\<lparr>x := x p + MOVEMENT_SPEED\<rparr> else p);
          p = p\<lparr>x := max 0 (min (width MAP_SIZE) (x p))\<rparr>;
          p = p\<lparr>y := max 0 (min (height MAP_SIZE) (y p))\<rparr>
      in p)"

text \<open>The loop itself, on the queue it empties.\<close>

fun drain_inputs :: "string list \<Rightarrow> player_v1 \<Rightarrow> player_v1" where
  "drain_inputs [] p = p\<lparr>inputs := []\<rparr>"
| "drain_inputs (input # rest) p = drain_inputs rest (apply_input input p)"

fun tick_players_v1 ::
  "(nat \<Rightarrow> draw) \<Rightarrow> (string \<times> player_v1) list \<Rightarrow> coin list \<Rightarrow> nat
     \<Rightarrow> ((string \<times> player_v1) list \<times> coin list \<times> nat) option" where
  "tick_players_v1 rnd [] COINS k = Some ([], COINS, k)"
| "tick_players_v1 rnd ((pid, p) # rest) COINS k =
     (case collision_loop rnd (length COINS) (drain_inputs (inputs p) p) COINS k of
        None \<Rightarrow> None
      | Some (p', COINS', k') \<Rightarrow>
          (case tick_players_v1 rnd rest COINS' k' of
             None \<Rightarrow> None
           | Some (rest', COINS'', k'') \<Rightarrow> Some ((pid, p') # rest', COINS'', k'')))"

text \<open>
  One tick of the older server: the new collections, and the argument of
  \<open>JSON.stringify\<close>, whose \<open>players\<close> is \<open>PLAYERS\<close> itself.
\<close>

definition tick_v1 ::
  "(nat \<Rightarrow> draw) \<Rightarrow> real \<Rightarrow> (string \<times> player_v1) list \<Rightarrow> coin list \<Rightarrow> nat
     \<Rightarrow> ((string \<times> player_v1) list \<times> coin list \<times> nat \<times> json) option" where
  "tick_v1 rnd now PLAYERS COINS k =
     (case tick_players_v1 rnd PLAYERS COINS k of
        None \<Rightarrow> None
      | Some (ps, cs, k') \<Rightarrow>
          (let gameState = \<lparr>players = ps, coins = cs, timestamp = now\<rparr>
           in Some (ps, cs, k', state_packet player_v1_json gameState)))"

section \<open>The newer server as a transition system\<close>

text \<open>
  The server: the two global collections, the number of draws consumed so far, and the
  state packets handed to \<open>setTimeout\<close> for broadcast, oldest first.
\<close>

record server =
  PLAYERS :: "(string \<times> player) list"
  COINS :: "coin list"
  draws :: nat
  emitted :: "player_view snapshot list"

definition tick :: "(nat \<Rightarrow> draw) \<Rightarrow> real \<Rightarrow> server \<Rightarrow> server option" where
  "tick rnd now s =
     (case tick_players rnd (PLAYERS s) (COINS s) (draws s) of
        None \<Rightarrow> None
      | Some (ps, cs, k) \<Rightarrow>
          (let playersForSend = map (\<lambda>(pid, p). (pid, for_send p)) ps;
               gameState = \<lparr>players = playersForSend, coins = cs, timestamp = now\<rparr>
           in Some \<lparr>PLAYERS = ps, COINS = cs, draws = k, emitted = emitted s @ [gameState]\<rparr>))"

text \<open>The callbacks the event loop runs, with what the environment hands each of them.\<close>

datatype event =
  Connection string string
| Message string "json option"
| Close string
| Tick real

fun step :: "(nat \<Rightarrow> draw) \<Rightarrow> event \<Rightarrow> server \<Rightarrow> server option" where
  "step rnd (Connection playerId col) s = Some (s\<lparr>PLAYERS := connection playerId col (PLAYERS s)\<rparr>)"
| "step rnd (Message playerId parsed) s = Some (s\<lparr>PLAYERS := on_message playerId parsed (PLAYERS s)\<rparr>)"
| "step rnd (Close playerId) s = Some (s\<lparr>PLAYERS := on_close playerId (PLAYERS s)\<rparr>)"
| "step rnd (Tick now) s = tick rnd now s"

fun run :: "(nat \<Rightarrow> draw) \<Rightarrow> event list \<Rightarrow> server \<Rightarrow> server option" where
  "run rnd [] s = Some s"
| "run rnd (e # es) s = (case step rnd e s of None \<Rightarrow> None | Some s' \<Rightarrow> run rnd es s')"

text \<open>The server once the module has loaded: no player, five coins.\<close>

definition startup :: "(nat \<Rightarrow> draw) \<Rightarrow> server" where
  "startup rnd = \<lparr>PLAYERS = [], COINS = spawn_initial rnd 5 0 [], draws = 5, emitted = []\<rparr>"

text \<open>A stream of draws that puts every coin at \<open>(10, 10)\<close>, for the examples.\<close>

definition corner_draws :: "nat \<Rightarrow> draw" where
  "corner_draws n = (''coin'', 0, 0)"

text \<open>The clock readings of the ticks of a run, in order.\<close>

fun tick_times :: "event list \<Rightarrow> real list" where
  "tick_times [] = []"
| "tick_times (Tick now # es) = now # tick_times es"
| "tick_times (_ # es) = tick_times es"

section \<open>The delay mechanism\<close>

text \<open>
  Both directions are delayed the same way: \<open>setTimeout(callback, LATENCY_MS)\<close>, one
  timer for each message received and one for each state packet produced. A timer is
  pending from its creation until its callback runs; the callback runs once, at some
  moment not before the delay has elapsed, and hands the payload on (to the message
  handler, or to every open socket). The code keeps no queue and makes no check of its
  own at release time, so which of several pending timers runs next is the timer
  facility's choice: \<open>Fire now k\<close> is that choice.
\<close>

record 'a timer =
  timer_id :: nat
  due :: real
  payload :: 'a

record 'a delay_state =
  next_timer :: nat
  timers :: "'a timer list"
  released :: "'a list"

datatype 'a delay_event = Submit real 'a | Fire real nat

definition delay_start :: "'a delay_state" where
  "delay_start = \<lparr>next_timer = 0, timers = [], released = []\<rparr>"

fun delay_step :: "'a delay_event \<Rightarrow> 'a delay_state \<Rightarrow> 'a delay_state" where
  "delay_step (Submit now a) s =
     s\<lparr>next_timer := Suc (next_timer s),
       timers := timers s @ [\<lparr>timer_id = next_timer s, due = now + LATENCY_MS, payload = a\<rparr>]\<rparr>"
| "delay_step (Fire now k) s =
     (case find (\<lambda>t. timer_id t = k) (timers s) of
        None \<Rightarrow> s
      | Some t \<Rightarrow>
          if due t \<le> now
          then s\<lparr>timers := filter (\<lambda>t. timer_id t \<noteq> k) (timers s),
                 released := released s @ [payload t]\<rparr>
          else s)"

fun delay_run :: "'a delay_event list \<Rightarrow> 'a delay_state \<Rightarrow> 'a delay_state" where
  "delay_run [] s = s"
| "delay_run (e # es) s = delay_run es (delay_step e s)"

text \<open>The payloads of a schedule in the order of their submission.\<close>

fun submitted :: "'a delay_event list \<Rightarrow> 'a list" where
  "submitted [] = []"
| "submitted (Submit now a # es) = a # submitted es"
| "submitted (Fire now k # es) = submitted es"

text \<open>A schedule in which every firing is that of the oldest pending timer, once due.\<close>

fun fires_oldest :: "'a delay_event \<Rightarrow> 'a delay_state \<Rightarrow> bool" where
  "fires_oldest (Submit now a) s = True"
| "fires_oldest (Fire now k) s =
     (case timers s of [] \<Rightarrow> False | t # ts \<Rightarrow> timer_id t = k \<and> due t \<le> now)"

fun fifo_schedule :: "'a delay_event list \<Rightarrow> 'a delay_state \<Rightarrow> bool" where
  "fifo_schedule [] s = True"
| "fifo_schedule (e # es) s = (fires_oldest e s \<and> fifo_schedule es (delay_step e s))"

section \<open>The client: snapshot buffer, interpolation, rendering\<close>

definition RENDER_DELAY :: real where "RENDER_DELAY = 100"

text \<open>The \<open>state\<close> branch of \<open>socket.onmessage\<close>.\<close>

definition on_state :: "drawn snapshot \<Rightarrow> drawn snapshot list \<Rightarrow> drawn snapshot list" where
  "on_state st stateBuffer =
     (let stateBuffer = stateBuffer @ [st]
      in if length stateBuffer > 20 then tl stateBuffer else stateBuffer)"

text \<open>
  The scan of \<open>getCurrentState\<close> from index \<open>i\<close> on, with the \<open>prev\<close> found so far; the
  result is \<open>(prev, next)\<close>, \<open>None\<close> for \<open>null\<close>.
\<close>

fun find_frames ::
  "real \<Rightarrow> drawn snapshot list \<Rightarrow> drawn snapshot option
     \<Rightarrow> drawn snapshot option \<times> drawn snapshot option" where
  "find_frames renderTimestamp [] prev = (prev, None)"
| "find_frames renderTimestamp (st # rest) prev =
     (if timestamp st \<le> renderTimestamp
      then find_frames renderTimestamp rest (Some st)
      else (prev, Some st))"

definition interpolation_factor :: "real \<Rightarrow> drawn snapshot \<Rightarrow> drawn snapshot \<Rightarrow> real" where
  "interpolation_factor renderTimestamp prev next =
     (let timeBetweenFrames = timestamp next - timestamp prev;
          timeSincePrev = renderTimestamp - timestamp prev
      in timeSincePrev / timeBetweenFrames)"

definition lerp_player :: "real \<Rightarrow> drawn \<Rightarrow> drawn \<Rightarrow> drawn" where
  "lerp_player t pPrev pNext =
     \<lparr>x = x pPrev + (x pNext - x pPrev) * t,
      y = y pPrev + (y pNext - y pPrev) * t,
      score = score pNext, color = color pNext\<rparr>"

text \<open>\<open>for (const id in next.players)\<close>; the keys of an object are distinct.\<close>

definition interpolate_players ::
  "real \<Rightarrow> drawn snapshot \<Rightarrow> drawn snapshot \<Rightarrow> (string \<times> drawn) list" where
  "interpolate_players t prev next =
     map (\<lambda>(pid, pNext). (pid, case map_of (players prev) pid of
                                   Some pPrev \<Rightarrow> lerp_player t pPrev pNext
                                 | None \<Rightarrow> pNext))
       (players next)"

text \<open>
  \<open>getCurrentState\<close>; \<open>None\<close> is the \<open>undefined\<close> that \<open>stateBuffer[stateBuffer.length - 1]\<close>
  yields on an empty buffer. The fall-back returns the latest snapshot, of which the
  caller reads \<open>players\<close> and \<open>coins\<close>.
\<close>

definition getCurrentState :: "real \<Rightarrow> drawn snapshot list \<Rightarrow> drawn world_view option" where
  "getCurrentState now stateBuffer =
     (let renderTimestamp = now - RENDER_DELAY
      in case find_frames renderTimestamp stateBuffer None of
           (Some prev, Some next) \<Rightarrow>
             (let t = interpolation_factor renderTimestamp prev next
              in Some \<lparr>players = interpolate_players t prev next, coins = coins next\<rparr>)
         | _ \<Rightarrow>
             (if stateBuffer = [] then None
              else Some \<lparr>players = players (last stateBuffer), coins = coins (last stateBuffer)\<rparr>))"

text \<open>
  The calls \<open>render\<close> makes on the canvas context, in order. \<open>FillText s n\<close> stands for
  the template literal made of the text \<open>s\<close> and the number \<open>n\<close>.
\<close>

datatype canvas_op =
  ClearRect real real real real
| FillStyle string
| BeginPath
| Arc real real real real real
| Fill
| FillRect real real real real
| Font string
| FillText string nat real real
| StrokeStyle string
| LineWidth real
| StrokeRect real real real real

definition draw_coin :: "coin \<Rightarrow> canvas_op list" where
  "draw_coin c = [BeginPath, Arc (x c) (y c) 10 0 (pi * 2), Fill]"

definition draw_player :: "string option \<Rightarrow> string \<times> drawn \<Rightarrow> canvas_op list" where
  "draw_player myId e = (case e of (pid, p) \<Rightarrow>
     [FillStyle (color p), FillRect (x p - 10) (y p - 10) 20 20,
      FillStyle ''white'', Font ''12px Arial'', FillText ''Score: '' (score p) (x p - 10) (y p - 15)]
     @ (if Some pid = myId
        then [StrokeStyle ''white'', LineWidth 2, StrokeRect (x p - 10) (y p - 10) 20 20]
        else []))"

text \<open>
  One frame of \<open>render\<close> on a canvas of the given width and height; the request for the
  next frame is not part of the frame.
\<close>

definition render :: "real \<Rightarrow> real \<Rightarrow> string option \<Rightarrow> real \<Rightarrow> drawn snapshot list \<Rightarrow> canvas_op list" where
  "render cw ch myId now stateBuffer =
     ClearRect 0 0 cw ch #
     (if length stateBuffer > 1 then
        (case getCurrentState now stateBuffer of
           None \<Rightarrow> []
         | Some interpolatedState \<Rightarrow>
             FillStyle ''gold'' # concat (map draw_coin (coins interpolatedState))
             @ concat (map (draw_player myId) (players interpolatedState)))
      else [])"

section \<open>Properties stated about the program\<close>

text \<open>A position inside the map rectangle, and a player table all of whose players are.\<close>

definition in_map :: "'a pos_scheme \<Rightarrow> bool" where
  "in_map p \<longleftrightarrow> 0 \<le> x p \<and> x p \<le> 800 \<and> 0 \<le> y p \<and> y p \<le> 600"

definition all_in_map :: "(string \<times> 'a pos_scheme) list \<Rightarrow> bool" where
  "all_in_map ps \<longleftrightarrow> (\<forall>e \<in> set ps. in_map (snd e))"

text \<open>The timestamps of the state packets a server has emitted, in emission order.\<close>

definition timestamps :: "server \<Rightarrow> real list" where
  "timestamps s = map timestamp (emitted s)"

text \<open>Pending timers carry distinct identifiers, all below the next one to be given out.\<close>

definition timers_fresh :: "'a delay_state \<Rightarrow> bool" where
  "timers_fresh s \<longleftrightarrow>
     distinct (map timer_id (timers s)) \<and> (\<forall>t \<in> set (timers s). timer_id t < next_timer s)"

section \<open>Collisions\<close>

lemma sqrt_less_30: "sqrt a < 30 \<longleftrightarrow> a < 900"
proof -
  have "sqrt a < sqrt 900 \<longleftrightarrow> a < 900" by (rule real_sqrt_less_iff)
  moreover have "sqrt 900 = 30" by (rule real_sqrt_unique) simp_all
  ultimately show ?thesis by simp
qed

lemma collides_distance: "collides p c \<longleftrightarrow> center_distance p c < 30"
  by (simp add: collides_def PLAYER_SIZE_def COIN_SIZE_def)

lemma collides_iff:
  "collides p c \<longleftrightarrow> (x p - x c) * (x p - x c) + (y p - y c) * (y p - y c) < 900"
  by (simp add: collides_distance center_distance_def Let_def sqrt_less_30)

lemma collides_score [simp]: "collides (p\<lparr>score := n\<rparr>) c = collides p c"
  by (simp add: collides_def center_distance_def)

lemma length_splice1: "i < length xs \<Longrightarrow> length (splice1 i xs) = length xs - 1"
  by (simp add: splice1_def)

lemma length_spawnCoin [simp]: "length (spawnCoin d cs) = Suc (length cs)"
  by (simp add: spawnCoin_def)

lemma collision_loop_result:
  "n \<le> length cs \<Longrightarrow>
   collision_loop rnd n p cs k =
     Some (p\<lparr>score := score p + length (filter (collides p) (take n cs))\<rparr>,
           filter (\<lambda>c. \<not> collides p c) (take n cs) @ drop n cs
             @ map (\<lambda>j. new_coin (rnd j)) [k ..< k + length (filter (collides p) (take n cs))],
           k + length (filter (collides p) (take n cs)))"
proof (induction n arbitrary: p cs k)
  case 0
  then show ?case by simp
next
  case (Suc n)
  then have n: "n < length cs" by simp
  have tk: "take (Suc n) cs = take n cs @ [cs ! n]" using n by (simp add: take_Suc_conv_app_nth)
  show ?case
  proof (cases "collides p (cs ! n)")
    case True
    let ?cs = "spawnCoin (rnd k) (splice1 n cs)"
    have len: "n \<le> length ?cs" using n by (simp add: length_splice1)
    have t: "take n ?cs = take n cs" using n by (simp add: spawnCoin_def splice1_def)
    have d: "drop n ?cs = drop (Suc n) cs @ [new_coin (rnd k)]"
      using n by (simp add: spawnCoin_def splice1_def)
    show ?thesis using n True Suc.IH[OF len, where p = "p\<lparr>score := score p + 1\<rparr>" and k = "Suc k"]
      by (simp add: t d tk upt_conv_Cons del: upt_Suc)
  next
    case False
    have d: "drop n cs = cs ! n # drop (Suc n) cs" using n by (simp add: Cons_nth_drop_Suc)
    show ?thesis using n False Suc.IH[where cs = cs and p = p and k = k]
      by (simp add: tk d)
  qed
qed

lemma collision_loop_whole:
  "\<exists>p' cs' k'. collision_loop rnd (length cs) p cs k = Some (p', cs', k')
     \<and> length cs' = length cs \<and> x p' = x p \<and> y p' = y p"
proof -
  have "length (filter (\<lambda>c. \<not> collides p c) cs) + length (filter (collides p) cs) = length cs"
    using sum_length_filter_compl[of "collides p" cs] by simp
  then show ?thesis
    using collision_loop_result[of "length cs" cs rnd p k] by simp
qed

section \<open>Movement\<close>

lemma move_in_map: "in_map (move p)"
  by (simp add: move_def in_map_def MAP_SIZE_def Let_def)

lemma single_shot_in_map: "in_map (single_shot k p)"
  by (simp add: single_shot_def in_map_def MAP_SIZE_def Let_def)

lemma tick_players_total:
  "\<exists>ps' cs' k'. tick_players rnd ps cs k = Some (ps', cs', k')
     \<and> length cs' = length cs \<and> map fst ps' = map fst ps
     \<and> (\<forall>e \<in> set ps'. in_map (snd e))"
proof (induction ps arbitrary: cs k)
  case Nil
  then show ?case by simp
next
  case (Cons e ps)
  obtain pid p where e: "e = (pid, p)" by (cases e)
  obtain p' cs' k' where c: "collision_loop rnd (length cs) (move p) cs k = Some (p', cs', k')"
    and l: "length cs' = length cs" and px: "x p' = x (move p)" and py: "y p' = y (move p)"
    using collision_loop_whole[of rnd cs "move p" k] by blast
  have inm: "in_map p'" using move_in_map[of p] px py by (simp add: in_map_def)
  obtain ps'' cs'' k'' where t: "tick_players rnd ps cs' k' = Some (ps'', cs'', k'')"
    and l2: "length cs'' = length cs'" and f: "map fst ps'' = map fst ps"
    and b: "\<forall>e \<in> set ps''. in_map (snd e)"
    using Cons.IH[of cs' k'] by blast
  show ?case using e c l t l2 f b inm by simp
qed

section \<open>Handlers keep players on the map\<close>

lemma set_update_subset: "set (AList.update k v al) \<subseteq> insert (k, v) (set al)"
  by (induction al) auto

lemma set_map_entry_cases:
  "e \<in> set (AList.map_entry k f al) \<Longrightarrow> e \<in> set al \<or> (\<exists>v. (k, v) \<in> set al \<and> e = (k, f v))"
  by (induction al) (auto split: if_splits)

lemma keys_map_entry: "map fst (AList.map_entry k f al) = map fst al"
  by (induction al) auto

lemma connection_in_map: "all_in_map ps \<Longrightarrow> all_in_map (connection pid col ps)"
proof -
  assume a: "all_in_map ps"
  have "in_map \<lparr>x = width MAP_SIZE / 2, y = height MAP_SIZE / 2, score = 0, color = col,
      player_id = pid, pressed = \<lparr>up = False, down = False, left = False, right = False\<rparr>\<rparr>"
    by (simp add: in_map_def MAP_SIZE_def)
  then show ?thesis using a set_update_subset
    unfolding all_in_map_def connection_def by fastforce
qed

lemma map_entry_in_map:
  assumes "all_in_map ps" and "\<And>p. in_map p \<Longrightarrow> in_map (f p)"
  shows "all_in_map (AList.map_entry k f ps)"
  unfolding all_in_map_def
proof
  fix e assume "e \<in> set (AList.map_entry k f ps)"
  then consider "e \<in> set ps" | v where "(k, v) \<in> set ps" "e = (k, f v)"
    using set_map_entry_cases by fastforce
  then show "in_map (snd e)"
  proof cases
    case 1 then show ?thesis using assms(1) by (simp add: all_in_map_def)
  next
    case 2
    then have "in_map v" using assms(1) by (auto simp: all_in_map_def)
    then show ?thesis using 2 assms(2) by simp
  qed
qed

lemma in_map_pressed [simp]: "in_map (p\<lparr>pressed := pr\<rparr>) = in_map p"
  by (simp add: in_map_def)

lemma on_message_in_map: "all_in_map ps \<Longrightarrow> all_in_map (on_message pid parsed ps)"
  unfolding on_message_def
  by (auto split: option.splits json.splits intro!: map_entry_in_map simp: single_shot_in_map)

lemma on_close_in_map: "all_in_map ps \<Longrightarrow> all_in_map (on_close pid ps)"
  by (auto simp: all_in_map_def on_close_def AList.delete_eq)

section \<open>Runs of the server\<close>

lemma tick_total:
  "\<exists>s'. tick rnd now s = Some s' \<and> length (COINS s') = length (COINS s)
     \<and> all_in_map (PLAYERS s') \<and> map fst (PLAYERS s') = map fst (PLAYERS s)
     \<and> emitted s' = emitted s @ [\<lparr>players = map (\<lambda>(pid, p). (pid, for_send p)) (PLAYERS s'),
          coins = COINS s', timestamp = now\<rparr>]"
proof -
  obtain ps cs k where "tick_players rnd (PLAYERS s) (COINS s) (draws s) = Some (ps, cs, k)"
    "length cs = length (COINS s)" "map fst ps = map fst (PLAYERS s)"
    "\<forall>e \<in> set ps. in_map (snd e)"
    using tick_players_total[of rnd "PLAYERS s" "COINS s" "draws s"] by blast
  then show ?thesis by (simp add: tick_def all_in_map_def)
qed

lemma step_total:
  assumes "all_in_map (PLAYERS s)"
  shows "\<exists>s'. step rnd e s = Some s' \<and> length (COINS s') = length (COINS s)
     \<and> all_in_map (PLAYERS s') \<and> timestamps s' = timestamps s @ tick_times [e]"
proof (cases e)
  case (Connection pid col)
  then show ?thesis using assms by (simp add: connection_in_map timestamps_def)
next
  case (Message pid parsed)
  then show ?thesis using assms by (simp add: on_message_in_map timestamps_def)
next
  case (Close pid)
  then show ?thesis using assms by (simp add: on_close_in_map timestamps_def)
next
  case (Tick now)
  then show ?thesis using tick_total[of rnd now s] by (auto simp: timestamps_def)
qed

lemma tick_times_Cons: "tick_times (e # es) = tick_times [e] @ tick_times es"
  by (cases e) simp_all

lemma run_total:
  "all_in_map (PLAYERS s) \<Longrightarrow>
   \<exists>s'. run rnd evs s = Some s' \<and> length (COINS s') = length (COINS s)
     \<and> all_in_map (PLAYERS s') \<and> timestamps s' = timestamps s @ tick_times evs"
proof (induction evs arbitrary: s)
  case Nil
  then show ?case by simp
next
  case (Cons e evs)
  obtain s1 where 1: "step rnd e s = Some s1" "length (COINS s1) = length (COINS s)"
    "all_in_map (PLAYERS s1)" "timestamps s1 = timestamps s @ tick_times [e]"
    using step_total[OF Cons.prems, of rnd e] by blast
  obtain s2 where 2: "run rnd evs s1 = Some s2" "length (COINS s2) = length (COINS s1)"
    "all_in_map (PLAYERS s2)" "timestamps s2 = timestamps s1 @ tick_times evs"
    using Cons.IH[OF 1(3)] by blast
  show ?case using 1 2 tick_times_Cons[of e evs] by simp
qed

lemma length_spawn_initial: "length (spawn_initial rnd n k cs) = length cs + n"
  by (induction n arbitrary: k cs) simp_all

lemma startup_facts:
  "all_in_map (PLAYERS (startup rnd))" "length (COINS (startup rnd)) = 5" "timestamps (startup rnd) = []"
  by (simp_all add: startup_def all_in_map_def length_spawn_initial timestamps_def)

lemma run_from_startup:
  "\<exists>s. run rnd evs (startup rnd) = Some s \<and> length (COINS s) = 5
     \<and> all_in_map (PLAYERS s) \<and> timestamps s = tick_times evs"
proof -
  have "all_in_map (PLAYERS (startup rnd))" by (rule startup_facts)
  from run_total[OF this] obtain s where "run rnd evs (startup rnd) = Some s"
    "length (COINS s) = length (COINS (startup rnd))" "all_in_map (PLAYERS s)"
    "timestamps s = timestamps (startup rnd) @ tick_times evs" by blast
  then show ?thesis by (simp add: startup_facts)
qed

lemmas eval_defs = startup_def corner_draws_def spawnCoin_def new_coin_def MAP_SIZE_def
  connection_def on_message_def input_msg_def is_direction_def set_pressed_def
  tick_def move_def collides_iff splice1_def for_send_def MOVEMENT_SPEED_def Let_def
  eval_nat_numeral on_close_def single_shot_def

section \<open>Claims about the game loop\<close>

text \<open>
  Claim C2. Whatever connections, messages, disconnections and ticks the server has
  run since it started, and whatever the draws, the run goes through and every player
  then stands inside the map: \<open>0 \<le> x \<le> 800\<close> and \<open>0 \<le> y \<le> 600\<close>. The run may end with
  a tick, so this holds after every tick.
\<close>

theorem positions_stay_on_map:
  "\<exists>s. run rnd evs (startup rnd) = Some s
     \<and> (\<forall>e \<in> set (PLAYERS s). 0 \<le> x (snd e) \<and> x (snd e) \<le> 800 \<and> 0 \<le> y (snd e) \<and> y (snd e) \<le> 600)"
  using run_from_startup[of rnd evs] by (auto simp: all_in_map_def in_map_def)

text \<open>
  Witness for C2: a player connects, presses \<open>up\<close>, and a tick passes; the player is in
  the table, at \<open>(400, 295)\<close>.
\<close>

theorem positions_stay_on_map_witness:
  "\<exists>s. run corner_draws
         [Connection ''p1'' ''red'', Message ''p1'' (Some (input_msg ''up'' ''start'')), Tick 1000]
         (startup corner_draws) = Some s
     \<and> map fst (PLAYERS s) = [''p1'']
     \<and> (\<forall>e \<in> set (PLAYERS s). 0 \<le> x (snd e) \<and> x (snd e) \<le> 800 \<and> 0 \<le> y (snd e) \<and> y (snd e) \<le> 600)"
  using positions_stay_on_map [of corner_draws
      "[Connection ''p1'' ''red'', Message ''p1'' (Some (input_msg ''up'' ''start'')), Tick 1000]"]
  by (simp add: eval_defs)

text \<open>
  Claim C3. Whatever the server has run since it started, the run goes through and
  the world then holds exactly five coins: the collision loop pushes one coin for each
  coin it splices out.
\<close>

theorem coin_count_invariant:
  "\<exists>s. run rnd evs (startup rnd) = Some s \<and> length (COINS s) = 5"
  using run_from_startup[of rnd evs] by auto

text \<open>
  Claim C9, as amended. The timestamp of each state packet is the clock reading the
  tick was given, so the timestamps of the packets emitted are the clock readings of the
  ticks, in order, and are strictly increasing exactly when those readings are.
\<close>

theorem timestamps_are_clock_readings:
  "\<exists>s. run rnd evs (startup rnd) = Some s \<and> timestamps s = tick_times evs
     \<and> sorted_wrt (<) (timestamps s) = sorted_wrt (<) (tick_times evs)"
  using run_from_startup[of rnd evs] by auto

text \<open>
  Claim C9 as stated fails when the wall clock does not advance between two ticks:
  with the readings 2000 and 1950 (a clock set back) the second packet carries the
  smaller timestamp.
\<close>

theorem timestamps_not_increasing_counterexample:
  "map_option timestamps (run corner_draws [Tick 2000, Tick 1950] (startup corner_draws))
     = Some [2000, 1950]
   \<and> \<not> sorted_wrt (<) [2000, 1950 :: real]"
  by (simp add: eval_defs timestamps_def)

text \<open>
  Witness for C9 as amended: the readings 1000 and 1050.
\<close>

theorem timestamps_are_clock_readings_witness:
  "\<exists>s. run corner_draws [Tick 1000, Tick 1050] (startup corner_draws) = Some s
     \<and> timestamps s = [1000, 1050] \<and> sorted_wrt (<) (timestamps s)"
  using timestamps_are_clock_readings [of corner_draws "[Tick 1000, Tick 1050]"]
  by auto

section \<open>Claims about collisions\<close>

lemma collision_loop_single:
  assumes others: "\<forall>d \<in> set pre \<union> set post. \<not> collides p d"
  shows "collision_loop rnd (length (pre @ c # post)) p (pre @ c # post) k =
     (if collides p c
      then Some (p\<lparr>score := score p + 1\<rparr>, pre @ post @ [new_coin (rnd k)], Suc k)
      else Some (p, pre @ c # post, k))"
proof -
  have f1: "filter (collides p) pre = []" "filter (collides p) post = []"
    using others by (auto simp: filter_empty_conv)
  have f2: "filter (\<lambda>c. \<not> collides p c) pre = pre" "filter (\<lambda>c. \<not> collides p c) post = post"
    using others by (auto simp: filter_id_conv)
  show ?thesis
    using collision_loop_result[of "length (pre @ c # post)" "pre @ c # post" rnd p k]
    by (simp add: f1 f2)
qed

text \<open>
  Claim C7. Take a player and a coin list in which no coin other than \<open>c\<close> is within
  reach. If the centre of \<open>c\<close> is at distance 29 from the player's, the collision loop
  adds exactly 1 to the score, removes \<open>c\<close> and pushes one new coin; if it is at distance
  31, the loop changes neither the player nor the coins.
\<close>

theorem collision_at_29_not_at_31:
  assumes "\<forall>d \<in> set pre \<union> set post. \<not> collides p d"
  shows "(center_distance p c = 29 \<longrightarrow>
            collision_loop rnd (length (pre @ c # post)) p (pre @ c # post) k
              = Some (p\<lparr>score := score p + 1\<rparr>, pre @ post @ [new_coin (rnd k)], Suc k))
       \<and> (center_distance p c = 31 \<longrightarrow>
            collision_loop rnd (length (pre @ c # post)) p (pre @ c # post) k
              = Some (p, pre @ c # post, k))"
  using collision_loop_single[OF assms, of rnd c k] by (simp add: collides_distance)

lemma sqrt_841: "sqrt 841 = 29"
  by (rule real_sqrt_unique) simp_all

lemma sqrt_961: "sqrt 961 = 31"
  by (rule real_sqrt_unique) simp_all

text \<open>
  Witness for C7: a player at \<open>(400, 300)\<close>, a far coin, and a coin at \<open>(420, 321)\<close>
  (distance 29, as \<open>20\<^sup>2 + 21\<^sup>2 = 29\<^sup>2\<close>) or at \<open>(400, 331)\<close> (distance 31).
\<close>

theorem collision_at_29_not_at_31_witness:
  "center_distance \<lparr>x = 400, y = 300, score = 0, color = ''red'', player_id = ''p1''\<rparr>
       \<lparr>x = 420, y = 321, coin_id = ''near''\<rparr> = 29
   \<and> collision_loop corner_draws 2
       \<lparr>x = 400, y = 300, score = 0, color = ''red'', player_id = ''p1''\<rparr>
       [\<lparr>x = 10, y = 10, coin_id = ''far''\<rparr>, \<lparr>x = 420, y = 321, coin_id = ''near''\<rparr>] 5
     = Some (\<lparr>x = 400, y = 300, score = 1, color = ''red'', player_id = ''p1''\<rparr>,
             [\<lparr>x = 10, y = 10, coin_id = ''far''\<rparr>, \<lparr>x = 10, y = 10, coin_id = ''coin''\<rparr>], 6)
   \<and> center_distance \<lparr>x = 400, y = 300, score = 0, color = ''red'', player_id = ''p1''\<rparr>
       \<lparr>x = 400, y = 331, coin_id = ''off''\<rparr> = 31
   \<and> collision_loop corner_draws 2
       \<lparr>x = 400, y = 300, score = 0, color = ''red'', player_id = ''p1''\<rparr>
       [\<lparr>x = 10, y = 10, coin_id = ''far''\<rparr>, \<lparr>x = 400, y = 331, coin_id = ''off''\<rparr>] 5
     = Some (\<lparr>x = 400, y = 300, score = 0, color = ''red'', player_id = ''p1''\<rparr>,
             [\<lparr>x = 10, y = 10, coin_id = ''far''\<rparr>, \<lparr>x = 400, y = 331, coin_id = ''off''\<rparr>], 5)"
proof -
  let ?p = "\<lparr>x = 400, y = 300, score = 0, color = ''red'', player_id = ''p1''\<rparr>"
  let ?far = "\<lparr>x = 10, y = 10, coin_id = ''far''\<rparr>"
  have far: "\<forall>d \<in> set [?far] \<union> set []. \<not> collides ?p d"
    by (simp add: collides_iff)
  have near: "center_distance ?p \<lparr>x = 420, y = 321, coin_id = ''near''\<rparr> = 29"
    by (simp add: center_distance_def sqrt_841)
  have off: "center_distance ?p \<lparr>x = 400, y = 331, coin_id = ''off''\<rparr> = 31"
    by (simp add: center_distance_def sqrt_961)
  show ?thesis
    using collision_at_29_not_at_31 [OF far, of "\<lparr>x = 420, y = 321, coin_id = ''near''\<rparr>" corner_draws 5]
      collision_at_29_not_at_31 [OF far, of "\<lparr>x = 400, y = 331, coin_id = ''off''\<rparr>" corner_draws 5]
      near off
    by (simp add: eval_nat_numeral collides_iff corner_draws_def new_coin_def MAP_SIZE_def
        spawnCoin_def splice1_def)
qed

section \<open>Claims about inbound messages\<close>

lemma map_of_map_entry_same:
  "map_of al k = Some v \<Longrightarrow> map_of (AList.map_entry k f al) k = Some (f v)"
  by (simp add: map_of_map_entry)

lemma map_of_map_entry_other:
  "k' \<noteq> k \<Longrightarrow> map_of (AList.map_entry k f al) k' = map_of al k'"
  by (simp add: map_of_map_entry)

lemma map_entry_twice:
  "AList.map_entry k f (AList.map_entry k g al) = AList.map_entry k (\<lambda>v. f (g v)) al"
  by (induction al) auto

lemma on_message_keys: "map fst (on_message pid parsed ps) = map fst ps"
  unfolding on_message_def
  by (auto split: option.splits json.splits simp: keys_map_entry)

lemma on_message_dropped:
  "parsed = None \<or> parsed_prop parsed ''type'' \<noteq> Some (JStr ''input'')
     \<or> \<not> is_direction (parsed_prop parsed ''key'')
   \<Longrightarrow> on_message pid parsed ps = ps"
  unfolding on_message_def parsed_prop_def
  by (auto split: option.splits json.splits)

lemma on_message_single_shot:
  assumes "parsed_prop parsed ''type'' = Some (JStr ''input'')"
    and "is_direction (parsed_prop parsed ''key'')"
    and "parsed_prop parsed ''action'' \<noteq> Some (JStr ''start'')"
    and "parsed_prop parsed ''action'' \<noteq> Some (JStr ''stop'')"
  shows "on_message pid parsed ps = AList.map_entry pid (single_shot (parsed_prop parsed ''key'')) ps"
proof (cases "map_of ps pid")
  case None
  then have "pid \<notin> fst ` set ps" by (simp add: map_of_eq_None_iff)
  then have "AList.map_entry pid (single_shot (parsed_prop parsed ''key'')) ps = ps"
    by (induction ps) auto
  then show ?thesis using None unfolding on_message_def
    by (auto split: option.splits json.splits)
next
  case (Some p)
  then show ?thesis using assms unfolding on_message_def parsed_prop_def
    by (auto split: option.splits json.splits simp: is_direction_def)
qed

lemma on_message_pressed:
  assumes "is_direction (Some (JStr k))" and "a = ''start'' \<or> a = ''stop''"
  shows "on_message pid (Some (input_msg k a)) ps =
     AList.map_entry pid (\<lambda>p. p\<lparr>pressed := set_pressed k (a = ''start'') (pressed p)\<rparr>) ps"
proof (cases "map_of ps pid")
  case None
  then have "pid \<notin> fst ` set ps" by (simp add: map_of_eq_None_iff)
  then have "AList.map_entry pid (\<lambda>p. p\<lparr>pressed := set_pressed k (a = ''start'') (pressed p)\<rparr>) ps = ps"
    by (induction ps) auto
  then show ?thesis using None unfolding on_message_def
    by (auto split: option.splits json.splits)
next
  case (Some p)
  then show ?thesis using assms unfolding on_message_def input_msg_def
    by auto
qed

lemma single_shot_keeps: "pressed (single_shot k p) = pressed p" "score (single_shot k p) = score p"
  by (simp_all add: single_shot_def Let_def)

text \<open>
  Claim C6, as amended. A message that does not parse, or is not of type \<open>input\<close>, or
  whose key is not one of the four directions, leaves the player table as it is; no message removes a player or adds
  one. A message of type \<open>input\<close> with a direction as key and an action that is neither
  \<open>start\<close> nor \<open>stop\<close> is not dropped: it is the single-shot input of the
  backward-compatibility branch, which moves the sender one step along the key and clamps
  the position, and leaves pressed-state and score as they are.
\<close>

theorem invalid_messages:
  "(parsed = None \<or> parsed_prop parsed ''type'' \<noteq> Some (JStr ''input'')
      \<or> \<not> is_direction (parsed_prop parsed ''key'')
    \<longrightarrow> on_message pid parsed ps = ps)
   \<and> map fst (on_message pid parsed ps) = map fst ps
   \<and> (parsed_prop parsed ''type'' = Some (JStr ''input'')
        \<and> is_direction (parsed_prop parsed ''key'')
        \<and> parsed_prop parsed ''action'' \<noteq> Some (JStr ''start'')
        \<and> parsed_prop parsed ''action'' \<noteq> Some (JStr ''stop'')
      \<longrightarrow> on_message pid parsed ps
            = AList.map_entry pid (single_shot (parsed_prop parsed ''key'')) ps
          \<and> pressed (single_shot (parsed_prop parsed ''key'') p) = pressed p
          \<and> score (single_shot (parsed_prop parsed ''key'') p) = score p
          \<and> in_map (single_shot (parsed_prop parsed ''key'') p))"
  using on_message_dropped[of parsed pid ps] on_message_keys[of pid parsed ps]
    on_message_single_shot[of parsed pid ps]
  by (simp add: single_shot_keeps single_shot_in_map)

text \<open>
  Claim C6 as stated fails for an action that is neither \<open>start\<close> nor \<open>stop\<close>: the
  message \<open>{type: 'input', key: 'up', action: 'jump'}\<close> moves the player from
  \<open>(400, 300)\<close> to \<open>(400, 295)\<close>.
\<close>

theorem invalid_action_moves_counterexample:
  "connection ''p1'' ''red'' [] =
     [(''p1'', \<lparr>x = 400, y = 300, score = 0, color = ''red'', player_id = ''p1'',
        pressed = \<lparr>up = False, down = False, left = False, right = False\<rparr>\<rparr>)]
   \<and> on_message ''p1'' (Some (input_msg ''up'' ''jump'')) (connection ''p1'' ''red'' []) =
     [(''p1'', \<lparr>x = 400, y = 295, score = 0, color = ''red'', player_id = ''p1'',
        pressed = \<lparr>up = False, down = False, left = False, right = False\<rparr>\<rparr>)]"
  by (simp add: connection_def on_message_def input_msg_def is_direction_def single_shot_def
      MAP_SIZE_def MOVEMENT_SPEED_def Let_def)

text \<open>
  Witness for C6 as amended: an unparsable message, a message with the key \<open>jump\<close>,
  and a single-shot \<open>left\<close>.
\<close>

theorem invalid_messages_witness:
  "on_message ''p1'' None (connection ''p1'' ''red'' []) = connection ''p1'' ''red'' []
   \<and> on_message ''p1'' (Some (input_msg ''jump'' ''start'')) (connection ''p1'' ''red'' [])
       = connection ''p1'' ''red'' []
   \<and> on_message ''p1'' (Some (input_msg ''left'' ''jump'')) (connection ''p1'' ''red'' [])
       = [(''p1'', \<lparr>x = 395, y = 300, score = 0, color = ''red'', player_id = ''p1'',
            pressed = \<lparr>up = False, down = False, left = False, right = False\<rparr>\<rparr>)]"
  using invalid_messages [of None "''p1''" "connection ''p1'' ''red'' []"]
    invalid_messages [of "Some (input_msg ''jump'' ''start'')" "''p1''" "connection ''p1'' ''red'' []"]
    invalid_messages [of "Some (input_msg ''left'' ''jump'')" "''p1''" "connection ''p1'' ''red'' []"]
  by (simp add: parsed_prop_def input_msg_def is_direction_def connection_def single_shot_def
      MAP_SIZE_def MOVEMENT_SPEED_def Let_def)

lemma set_pressed_False_same:
  "is_direction (Some (JStr k)) \<Longrightarrow> (set_pressed k False pr = pr) = (\<not> get_pressed k pr)"
  by (cases pr) (auto simp: is_direction_def set_pressed_def get_pressed_def)

lemma set_pressed_twice: "set_pressed k b (set_pressed k a pr) = set_pressed k b pr"
  by (simp add: set_pressed_def)

text \<open>
  Claim C8, as amended. For a connected player and a direction, \<open>start\<close> followed by
  \<open>stop\<close> with no tick between changes nothing of the player but the flag of that
  direction, which it leaves released. So the pressed-state is what it was before the
  pair exactly when the direction was not pressed before.
\<close>

theorem start_then_stop:
  assumes "map_of ps pid = Some p" and "is_direction (Some (JStr k))"
  shows "map_of (on_message pid (Some (input_msg k ''stop''))
                  (on_message pid (Some (input_msg k ''start'')) ps)) pid
           = Some (p\<lparr>pressed := set_pressed k False (pressed p)\<rparr>)
       \<and> (set_pressed k False (pressed p) = pressed p) = (\<not> get_pressed k (pressed p))
       \<and> \<not> get_pressed k (set_pressed k False (pressed p))"
proof -
  have "on_message pid (Some (input_msg k ''stop'')) (on_message pid (Some (input_msg k ''start'')) ps)
      = AList.map_entry pid (\<lambda>q. q\<lparr>pressed := set_pressed k False (pressed q)\<rparr>) ps"
    using assms(2) by (simp add: on_message_pressed map_entry_twice set_pressed_twice)
  moreover have "\<not> get_pressed k (set_pressed k False (pressed p))"
    by (simp add: set_pressed_def get_pressed_def)
  ultimately show ?thesis
    using assms by (simp add: map_of_map_entry_same set_pressed_False_same)
qed

text \<open>
  Claim C8 as stated fails when the direction was already pressed: after one
  \<open>start\<close> the flag \<open>up\<close> is set, and a further \<open>start\<close> and \<open>stop\<close> leave it cleared.
\<close>

theorem start_then_stop_releases_counterexample:
  "on_message ''p1'' (Some (input_msg ''up'' ''start'')) (connection ''p1'' ''red'' []) =
     [(''p1'', \<lparr>x = 400, y = 300, score = 0, color = ''red'', player_id = ''p1'',
        pressed = \<lparr>up = True, down = False, left = False, right = False\<rparr>\<rparr>)]
   \<and> on_message ''p1'' (Some (input_msg ''up'' ''stop''))
       (on_message ''p1'' (Some (input_msg ''up'' ''start''))
         (on_message ''p1'' (Some (input_msg ''up'' ''start'')) (connection ''p1'' ''red'' []))) =
     [(''p1'', \<lparr>x = 400, y = 300, score = 0, color = ''red'', player_id = ''p1'',
        pressed = \<lparr>up = False, down = False, left = False, right = False\<rparr>\<rparr>)]"
  by (simp add: connection_def on_message_def input_msg_def is_direction_def set_pressed_def
      MAP_SIZE_def)

text \<open>
  Witness for C8 as amended: a player who has just connected.
\<close>

theorem start_then_stop_witness:
  "map_of (connection ''p1'' ''red'' []) ''p1'' =
     Some \<lparr>x = 400, y = 300, score = 0, color = ''red'', player_id = ''p1'',
        pressed = \<lparr>up = False, down = False, left = False, right = False\<rparr>\<rparr>
   \<and> is_direction (Some (JStr ''up''))
   \<and> map_of (on_message ''p1'' (Some (input_msg ''up'' ''stop''))
               (on_message ''p1'' (Some (input_msg ''up'' ''start'')) (connection ''p1'' ''red'' []))) ''p1''
       = map_of (connection ''p1'' ''red'' []) ''p1''"
proof -
  have a: "map_of (connection ''p1'' ''red'' []) ''p1'' =
     Some \<lparr>x = 400, y = 300, score = 0, color = ''red'', player_id = ''p1'',
        pressed = \<lparr>up = False, down = False, left = False, right = False\<rparr>\<rparr>"
    by (simp add: connection_def MAP_SIZE_def)
  have b: "is_direction (Some (JStr ''up''))" by (simp add: is_direction_def)
  show ?thesis using start_then_stop [OF a b] a b by (simp add: set_pressed_def)
qed

section \<open>Claims about the state packet\<close>

lemma newer_packet_fields:
  "player_fields (state_packet player_view_json gs)
     = map (\<lambda>e. [''id'', ''x'', ''y'', ''score'', ''color'']) (players gs)"
  by (simp add: player_fields_def state_packet_def player_view_json_def split_def)

lemma older_packet_fields:
  "player_fields (state_packet player_v1_json gs)
     = map (\<lambda>e. [''id'', ''x'', ''y'', ''score'', ''color'', ''inputs'']) (players gs)"
  by (simp add: player_fields_def state_packet_def player_v1_json_def split_def)

lemma newer_server_strips:
  "pf \<in> set (player_fields (state_packet player_view_json gs))
     \<Longrightarrow> pf = [''id'', ''x'', ''y'', ''score'', ''color'']"
  by (auto simp: newer_packet_fields)

lemma tick_players_v1_total:
  "\<exists>ps' cs' k'. tick_players_v1 rnd ps cs k = Some (ps', cs', k')
     \<and> length cs' = length cs \<and> length ps' = length ps"
proof (induction ps arbitrary: cs k)
  case Nil
  then show ?case by simp
next
  case (Cons e ps)
  obtain pid p where e: "e = (pid, p)" by (cases e)
  obtain p' cs' k' where c:
    "collision_loop rnd (length cs) (drain_inputs (inputs p) p) cs k = Some (p', cs', k')"
    and l: "length cs' = length cs"
    using collision_loop_whole[of rnd cs "drain_inputs (inputs p) p" k] by blast
  obtain ps'' cs'' k'' where t: "tick_players_v1 rnd ps cs' k' = Some (ps'', cs'', k'')"
    and l2: "length cs'' = length cs'" and f: "length ps'' = length ps"
    using Cons.IH[of cs' k'] by blast
  show ?case using e c l t l2 f by simp
qed

lemma older_server_always_sends_inputs:
  "\<exists>ps' cs' k' packet. tick_v1 rnd now ps cs k = Some (ps', cs', k', packet)
     \<and> player_fields packet
         = replicate (length ps) [''id'', ''x'', ''y'', ''score'', ''color'', ''inputs'']"
proof -
  obtain ps' cs' k' where "tick_players_v1 rnd ps cs k = Some (ps', cs', k')"
    "length ps' = length ps"
    using tick_players_v1_total[of rnd ps cs k] by blast
  then show ?thesis
    by (simp add: tick_v1_def older_packet_fields map_replicate_const)
qed

text \<open>
  Claim C5. The newer server builds \<open>playersForSend\<close>, so each player of its packets
  has exactly the properties \<open>id\<close>, \<open>x\<close>, \<open>y\<close>, \<open>score\<close>, \<open>color\<close>
  (\<open>newer_server_strips\<close>). The older server hands \<open>PLAYERS\<close> itself to
  \<open>JSON.stringify\<close>: after one player has connected and one tick has passed, the packet
  lists the input queue \<open>inputs\<close> among the properties of that player.
\<close>

theorem older_server_sends_inputs:
  "\<exists>ps cs k packet.
     tick_v1 corner_draws 1000 (connection_v1 ''p1'' ''red'' []) (spawn_initial corner_draws 5 0 []) 5
       = Some (ps, cs, k, packet)
     \<and> player_fields packet = [[''id'', ''x'', ''y'', ''score'', ''color'', ''inputs'']]"
  by (simp add: tick_v1_def connection_v1_def older_packet_fields eval_defs)

section \<open>Claims about the delay mechanism\<close>

lemma delay_step_fresh: "timers_fresh s \<Longrightarrow> timers_fresh (delay_step e s)"
proof (cases e)
  case (Submit now a)
  assume "timers_fresh s"
  then show ?thesis using Submit by (fastforce simp: timers_fresh_def)
next
  case (Fire now k)
  assume "timers_fresh s"
  then show ?thesis using Fire
    by (auto simp: timers_fresh_def distinct_map_filter split: option.splits)
qed

lemma fires_oldest_step:
  assumes "timers_fresh s" and "fires_oldest e s"
  shows "released (delay_step e s) @ map payload (timers (delay_step e s))
           = released s @ map payload (timers s) @ submitted [e]"
proof (cases e)
  case (Submit now a)
  then show ?thesis by simp
next
  case (Fire now k)
  then obtain t ts where ts: "timers s = t # ts" "timer_id t = k" "due t \<le> now"
    using assms(2) by (auto split: list.splits)
  have "k \<notin> timer_id ` set ts" using assms(1) ts by (auto simp: timers_fresh_def)
  then have "filter (\<lambda>t. timer_id t \<noteq> k) ts = ts" by (auto simp: filter_id_conv)
  then show ?thesis using Fire ts by simp
qed

lemma submitted_Cons: "submitted (e # es) = submitted [e] @ submitted es"
  by (cases e) simp_all

lemma fifo_run:
  "timers_fresh s \<Longrightarrow> fifo_schedule evs s \<Longrightarrow>
   released (delay_run evs s) @ map payload (timers (delay_run evs s))
     = released s @ map payload (timers s) @ submitted evs"
proof (induction evs arbitrary: s)
  case Nil
  then show ?case by simp
next
  case (Cons e evs)
  have fr: "timers_fresh (delay_step e s)" using Cons.prems(1) by (rule delay_step_fresh)
  have ff: "fifo_schedule evs (delay_step e s)" using Cons.prems(2) by simp
  have "released (delay_run evs (delay_step e s)) @ map payload (timers (delay_run evs (delay_step e s)))
      = released (delay_step e s) @ map payload (timers (delay_step e s)) @ submitted evs"
    by (rule Cons.IH[OF fr ff])
  also have "\<dots> = (released s @ map payload (timers s) @ submitted [e]) @ submitted evs"
    using fires_oldest_step[of s e] Cons.prems by simp
  finally show ?case using submitted_Cons[of e evs] by simp
qed

text \<open>
  Claim C1, as amended. In every schedule of submissions and timer firings in which
  each firing is that of the oldest pending timer, the payloads released so far followed
  by the payloads still pending are the payloads submitted, in the order of submission:
  release order is submission order.
\<close>

theorem fifo_firing_preserves_order:
  assumes "fifo_schedule evs delay_start"
  shows "released (delay_run evs delay_start) @ map payload (timers (delay_run evs delay_start))
           = submitted evs"
  using fifo_run[of delay_start evs] assms by (simp add: timers_fresh_def delay_start_def)

text \<open>
  Claim C1 as stated fails when a timer fires late: \<open>a\<close> is submitted at 0 and \<open>b\<close>
  at 1, the timer of \<open>b\<close> fires at 201 and that of \<open>a\<close> only at 202; each callback hands
  its own payload on, so \<open>b\<close> is released before \<open>a\<close>.
\<close>

theorem late_timer_reorders_counterexample:
  "submitted [Submit 0 ''a'', Submit 1 ''b'', Fire 201 1, Fire 202 0] = [''a'', ''b'']
   \<and> released (delay_run [Submit 0 ''a'', Submit 1 ''b'', Fire 201 1, Fire 202 0] delay_start)
       = [''b'', ''a'']"
  by (simp add: delay_start_def LATENCY_MS_def)

text \<open>
  Witness for C1 as amended: the same submissions, the timers firing in order.
\<close>

theorem fifo_firing_preserves_order_witness:
  "fifo_schedule [Submit 0 ''a'', Submit 1 ''b'', Fire 200 0, Fire 202 1] delay_start
   \<and> released (delay_run [Submit 0 ''a'', Submit 1 ''b'', Fire 200 0, Fire 202 1] delay_start)
       = [''a'', ''b'']
   \<and> submitted [Submit 0 ''a'', Submit 1 ''b'', Fire 200 0, Fire 202 1] = [''a'', ''b'']"
proof -
  have f: "fifo_schedule [Submit 0 ''a'', Submit 1 ''b'', Fire 200 0, Fire 202 1] delay_start"
    by (simp add: delay_start_def LATENCY_MS_def)
  have t: "timers (delay_run [Submit 0 ''a'', Submit 1 ''b'', Fire 200 0, Fire 202 1] delay_start) = []"
    by (simp add: delay_start_def LATENCY_MS_def)
  show ?thesis using fifo_firing_preserves_order [OF f] f t by simp
qed

section \<open>Claims about the client\<close>

lemma find_frames_bracket:
  "find_frames rt buf prev0 = (Some p, Some n) \<Longrightarrow>
   (\<And>q. prev0 = Some q \<Longrightarrow> timestamp q \<le> rt) \<Longrightarrow>
   timestamp p \<le> rt \<and> rt < timestamp n"
proof (induction buf arbitrary: prev0)
  case Nil
  then show ?case by simp
next
  case (Cons st buf)
  show ?case
  proof (cases "timestamp st \<le> rt")
    case True
    then have "find_frames rt buf (Some st) = (Some p, Some n)" using Cons.prems(1) by simp
    then show ?thesis using Cons.IH[of "Some st"] True by simp
  next
    case False
    then have "prev0 = Some p" "n = st" using Cons.prems(1) by simp_all
    then show ?thesis using False Cons.prems(2) by simp
  qed
qed

lemma interpolation_factor_unit:
  assumes "timestamp prev \<le> rt" and "rt < timestamp next"
  shows "0 \<le> interpolation_factor rt prev next" and "interpolation_factor rt prev next < 1"
  using assms by (simp_all add: interpolation_factor_def Let_def)

lemma map_of_interpolate_players:
  "map_of (interpolate_players t prev next) pid =
     map_option (\<lambda>pNext. case map_of (players prev) pid of
                             Some pPrev \<Rightarrow> lerp_player t pPrev pNext
                           | None \<Rightarrow> pNext)
       (map_of (players next) pid)"
proof -
  have "map_of (map (\<lambda>(k, v). (k, f k v)) al) pid = map_option (f pid) (map_of al pid)"
    for f :: "string \<Rightarrow> drawn \<Rightarrow> drawn" and al
    by (induction al) auto
  then show ?thesis unfolding interpolate_players_def by simp
qed

lemma lerp_player_convex:
  "x (lerp_player t pPrev pNext) = (1 - t) * x pPrev + t * x pNext"
  "y (lerp_player t pPrev pNext) = (1 - t) * y pPrev + t * y pNext"
  by (simp_all add: lerp_player_def algebra_simps)

lemma getCurrentState_interpolates:
  "find_frames (now - RENDER_DELAY) stateBuffer None = (Some prev, Some next) \<Longrightarrow>
   getCurrentState now stateBuffer =
     Some \<lparr>players = interpolate_players (interpolation_factor (now - RENDER_DELAY) prev next) prev next,
           coins = coins next\<rparr>"
  by (simp add: getCurrentState_def Let_def)

lemma getCurrentState_factor_unit:
  assumes "find_frames (now - RENDER_DELAY) stateBuffer None = (Some prev, Some next)"
  shows "0 \<le> interpolation_factor (now - RENDER_DELAY) prev next
       \<and> interpolation_factor (now - RENDER_DELAY) prev next < 1"
proof -
  have "timestamp prev \<le> now - RENDER_DELAY \<and> now - RENDER_DELAY < timestamp next"
    using find_frames_bracket[OF assms] by simp
  then show ?thesis using interpolation_factor_unit by blast
qed

text \<open>
  Claim C4. For snapshots \<open>prev\<close> and \<open>next\<close> with
  \<open>prev.timestamp < renderTimestamp < next.timestamp\<close>, the factor \<open>t\<close> lies in \<open>[0, 1]\<close>;
  every player present in both is drawn at \<open>(1 - t) * prev + t * next\<close>, a point of the
  segment between the two positions; and this \<open>t\<close> and these players are what
  \<open>getCurrentState\<close> returns whenever its scan of the buffer selects this pair. (The scan
  only ever selects a pair with \<open>prev.timestamp \<le> renderTimestamp < next.timestamp\<close>:
  \<open>getCurrentState_factor_unit\<close>.)
\<close>

theorem interpolation_on_segment:
  assumes "timestamp prev < renderTimestamp" and "renderTimestamp < timestamp next"
    and "t = interpolation_factor renderTimestamp prev next"
  shows "0 \<le> t \<and> t \<le> 1
     \<and> (\<forall>pid pPrev pNext.
           map_of (players prev) pid = Some pPrev \<and> map_of (players next) pid = Some pNext \<longrightarrow>
           (\<exists>q. map_of (interpolate_players t prev next) pid = Some q
                \<and> x q = (1 - t) * x pPrev + t * x pNext
                \<and> y q = (1 - t) * y pPrev + t * y pNext))
     \<and> (\<forall>now stateBuffer.
           renderTimestamp = now - RENDER_DELAY
           \<and> find_frames renderTimestamp stateBuffer None = (Some prev, Some next) \<longrightarrow>
           getCurrentState now stateBuffer
             = Some \<lparr>players = interpolate_players t prev next, coins = coins next\<rparr>)"
proof -
  have "0 \<le> t \<and> t \<le> 1"
    using interpolation_factor_unit[of prev renderTimestamp "next"] assms by simp
  moreover have "\<exists>q. map_of (interpolate_players t prev next) pid = Some q
                \<and> x q = (1 - t) * x pPrev + t * x pNext
                \<and> y q = (1 - t) * y pPrev + t * y pNext"
    if "map_of (players prev) pid = Some pPrev" "map_of (players next) pid = Some pNext"
    for pid pPrev pNext
    using that by (simp add: map_of_interpolate_players lerp_player_convex)
  moreover have "getCurrentState now stateBuffer
             = Some \<lparr>players = interpolate_players t prev next, coins = coins next\<rparr>"
    if "renderTimestamp = now - RENDER_DELAY"
      "find_frames renderTimestamp stateBuffer None = (Some prev, Some next)"
    for now stateBuffer
    using that assms(3) getCurrentState_interpolates[of now stateBuffer prev "next"] by simp
  ultimately show ?thesis by blast
qed

text \<open>
  Witness for C4: snapshots at 1000 and 1050 with the player at \<open>x = 100\<close> and
  \<open>x = 110\<close>, rendered at 1125, that is for the time 1025: \<open>t = 1/2\<close> and \<open>x = 105\<close>.
\<close>

theorem interpolation_on_segment_witness:
  "timestamp \<lparr>players = [(''p1'', \<lparr>x = 100, y = 50, score = 0, color = ''red''\<rparr>)], coins = [], timestamp = 1000\<rparr> < 1025 \<and> 1025 < timestamp \<lparr>players = [(''p1'', \<lparr>x = 110, y = 50, score = 1, color = ''red''\<rparr>)], coins = [], timestamp = 1050\<rparr>
   \<and> interpolation_factor 1025 \<lparr>players = [(''p1'', \<lparr>x = 100, y = 50, score = 0, color = ''red''\<rparr>)], coins = [], timestamp = 1000\<rparr> \<lparr>players = [(''p1'', \<lparr>x = 110, y = 50, score = 1, color = ''red''\<rparr>)], coins = [], timestamp = 1050\<rparr> = 1 / 2
   \<and> getCurrentState 1125 [\<lparr>players = [(''p1'', \<lparr>x = 100, y = 50, score = 0, color = ''red''\<rparr>)], coins = [], timestamp = 1000\<rparr>, \<lparr>players = [(''p1'', \<lparr>x = 110, y = 50, score = 1, color = ''red''\<rparr>)], coins = [], timestamp = 1050\<rparr>]
       = Some \<lparr>players = [(''p1'', \<lparr>x = 105, y = 50, score = 1, color = ''red''\<rparr>)], coins = []\<rparr>"
proof -
  let ?prev = "\<lparr>players = [(''p1'', \<lparr>x = 100, y = 50, score = 0, color = ''red''\<rparr>)], coins = [], timestamp = 1000\<rparr>"
  let ?next = "\<lparr>players = [(''p1'', \<lparr>x = 110, y = 50, score = 1, color = ''red''\<rparr>)], coins = [], timestamp = 1050\<rparr>"
  have a: "timestamp ?prev < 1025" and b: "1025 < timestamp ?next" by simp_all
  have c: "1 / 2 = interpolation_factor 1025 ?prev ?next"
    by (simp add: interpolation_factor_def)
  have d: "(1025 :: real) = 1125 - RENDER_DELAY
       \<and> find_frames 1025 [?prev, ?next] None = (Some ?prev, Some ?next)"
    by (simp add: RENDER_DELAY_def)
  have "getCurrentState 1125 [?prev, ?next]
      = Some \<lparr>players = interpolate_players (1 / 2) ?prev ?next, coins = coins ?next\<rparr>"
    using interpolation_on_segment [OF a b c] d by blast
  then show ?thesis using a b c
    by (simp add: interpolate_players_def lerp_player_def)
qed

lemma getCurrentState_single:
  "getCurrentState now [st] = Some \<lparr>players = players st, coins = coins st\<rparr>"
  by (simp add: getCurrentState_def Let_def)

text \<open>
  Claim C10. With fewer than two snapshots in the buffer a frame consists of clearing
  the canvas and nothing else. On a buffer of one snapshot \<open>getCurrentState\<close> would fall
  back to that snapshot, but \<open>render\<close> does not call it: the frame is empty.
\<close>

theorem render_needs_two_snapshots:
  "(length stateBuffer < 2 \<longrightarrow> render cw ch myId now stateBuffer = [ClearRect 0 0 cw ch])
   \<and> getCurrentState now [st] = Some \<lparr>players = players st, coins = coins st\<rparr>
   \<and> render cw ch myId now [st] = [ClearRect 0 0 cw ch]"
  by (simp add: render_def getCurrentState_single)

text \<open>
  Witness for C10: the buffer after the first state message.
\<close>

theorem render_needs_two_snapshots_witness:
  "length (on_state \<lparr>players = [(''p1'', \<lparr>x = 400, y = 300, score = 0, color = ''red''\<rparr>)], coins = [\<lparr>x = 10, y = 10, coin_id = ''coin''\<rparr>], timestamp = 1000\<rparr> []) < 2
   \<and> render 800 600 (Some ''p1'') 1125 (on_state \<lparr>players = [(''p1'', \<lparr>x = 400, y = 300, score = 0, color = ''red''\<rparr>)], coins = [\<lparr>x = 10, y = 10, coin_id = ''coin''\<rparr>], timestamp = 1000\<rparr> []) = [ClearRect 0 0 800 600]"
  using render_needs_two_snapshots [of "on_state \<lparr>players = [(''p1'', \<lparr>x = 400, y = 300, score = 0, color = ''red''\<rparr>)], coins = [\<lparr>x = 10, y = 10, coin_id = ''coin''\<rparr>], timestamp = 1000\<rparr> []" 800 600 "Some ''p1''" 1125]
  by (simp add: on_state_def)


end
